theory Spec2Isabelle
  imports Complex_Main "HOL-Library.AList"
begin

section \<open>Python values used by the plugin\<close>

text \<open>
  A Python \<open>str\<close> is a sequence of Unicode code points, and \<open>len\<close> and slicing count code
  points. A character is therefore modelled by its code point (a natural number) and a string
  by the list of its code points; \<open>py\<close> embeds an ASCII literal.
\<close>

type_synonym pychar = nat
type_synonym pystr = "pychar list"

definition py :: "string \<Rightarrow> pystr" where
  "py s = map of_char s"

text \<open>\<open>x or ''\<close> for an optional string field: \<open>None\<close> and \<open>''\<close> both give \<open>''\<close>.\<close>

definition or_empty :: "pystr option \<Rightarrow> pystr" where
  "or_empty x = (case x of None \<Rightarrow> [] | Some s \<Rightarrow> s)"

text \<open>Truth value of an optional string: \<open>None\<close> and the empty string are false.\<close>

definition truthy :: "pystr option \<Rightarrow> bool" where
  "truthy x = (case x of None \<Rightarrow> False | Some s \<Rightarrow> s \<noteq> [])"

text \<open>\<open>str(n)\<close> for a Python integer: decimal digits, with a leading minus sign.\<close>

fun str_nat :: "nat \<Rightarrow> pystr" where
  "str_nat n = (if n < 10 then [48 + n] else str_nat (n div 10) @ [48 + n mod 10])"

declare str_nat.simps [simp del]

definition str_int :: "int \<Rightarrow> pystr" where
  "str_int i = (if i < 0 then 45 # str_nat (nat (- i)) else str_nat (nat i))"

text \<open>
  The slice \<open>s[:n]\<close>: the first \<open>n\<close> characters for \<open>n \<ge> 0\<close>; for a negative \<open>n\<close> all but
  the last \<open>-n\<close> characters.
\<close>

definition slice_to :: "int \<Rightarrow> 'a list \<Rightarrow> 'a list" where
  "slice_to n s = (if 0 \<le> n then take (nat n) s else take (length s - nat (- n)) s)"

text \<open>
  The characters for which \<open>str.isspace\<close> holds; these are the ones \<open>\s\<close> matches in a
  \<open>str\<close> pattern and the ones \<open>str.strip()\<close> removes.
\<close>

definition is_space :: "pychar \<Rightarrow> bool" where
  "is_space c \<longleftrightarrow>
     (9 \<le> c \<and> c \<le> 13) \<or> (28 \<le> c \<and> c \<le> 32) \<or> c = 133 \<or> c = 160 \<or> c = 5760 \<or>
     (8192 \<le> c \<and> c \<le> 8202) \<or> c = 8232 \<or> c = 8233 \<or> c = 8239 \<or> c = 8287 \<or> c = 12288"

definition strip :: "pystr \<Rightarrow> pystr" where
  "strip s = rev (dropWhile is_space (rev (dropWhile is_space s)))"

section \<open>Configuration and remote profiles\<close>

record bridge =
  telegram_chat_id :: int
  irc_channel :: pystr

record config =
  enabled :: bool
  identity_ident :: pystr
  identity_host :: pystr
  identity_suffix :: pystr
  limits_nick_max :: int
  limits_message_max :: int
  cleanup_idle_timeout :: int
  bridges :: "bridge list"

record tg_user =
  user_id :: int
  username :: "pystr option"
  first_name :: "pystr option"
  last_name :: "pystr option"

section \<open>Nickname and real-name construction\<close>

text \<open>
  The character class \<open>[A-Za-z0-9_\-\[\]\\`^{}]\<close> of \<open>sanitize_irc_name\<close>: ASCII letters,
  digits, underscore, hyphen, square brackets, backslash, backtick, caret and braces.
\<close>

definition irc_allowed :: "pychar \<Rightarrow> bool" where
  "irc_allowed c \<longleftrightarrow>
     (65 \<le> c \<and> c \<le> 90) \<or> (97 \<le> c \<and> c \<le> 122) \<or> (48 \<le> c \<and> c \<le> 57) \<or>
     c = 95 \<or> c = 45 \<or> c = 91 \<or> c = 93 \<or> c = 92 \<or> c = 96 \<or> c = 94 \<or> c = 123 \<or> c = 125"

text \<open>
  \<open>re.sub(r"\s+", "", name)\<close> deletes every maximal run of whitespace, that is every
  whitespace character; the second substitution deletes every character outside the class.
\<close>

definition sanitize_irc_name :: "pystr \<Rightarrow> pystr" where
  "sanitize_irc_name name =
     (let name1 = filter (\<lambda>c. \<not> is_space c) name;
          name2 = filter irc_allowed name1
      in if name2 \<noteq> [] then name2 else py ''TGUser'')"

text \<open>The base name chosen on lines 155-158 of \<open>build_nick_from_telegram\<close>.\<close>

definition nick_base :: "tg_user \<Rightarrow> pystr" where
  "nick_base u =
     (if truthy (username u) then or_empty (username u)
      else (let full = or_empty (first_name u) @ or_empty (last_name u)
            in if full \<noteq> [] then full else py ''tg'' @ str_int (user_id u)))"

definition build_nick_from_telegram :: "tg_user \<Rightarrow> config \<Rightarrow> pystr" where
  "build_nick_from_telegram u cfg =
     (let base = sanitize_irc_name (nick_base u);
          nick = base @ py ''/'' @ identity_suffix cfg
      in slice_to (limits_nick_max cfg) nick)"

definition build_realname :: "tg_user \<Rightarrow> pystr" where
  "build_realname u =
     (if truthy (username u) then py ''Telegram @'' @ or_empty (username u)
      else strip (py ''Telegram '' @ or_empty (first_name u) @ py '' '' @ or_empty (last_name u)))"

section \<open>The plugin's state and its collaborators\<close>

text \<open>
  The local network (\<open>irc\<close>) and the remote client (\<open>irc.telegram_app.bot\<close>) are external.
  Every call the plugin makes on them is recorded, in order, in a trace. \<open>irc.create_user\<close> is
  the one call whose result the plugin uses: it is a parameter of the model, a function of the
  calls made so far and of its arguments that returns a user handle or raises.
\<close>

type_synonym handle = nat

datatype event =
    CreateUser pystr pystr pystr pystr
  | Join handle pystr
  | SendPrivmsg pystr pystr handle
  | Quit handle pystr
  | LogInfo pystr
  | SendMessage int pystr

datatype exn = IrcError | AttributeError | KeyError

record irc =
  telegram_cfg :: config
  create_user :: "event list \<Rightarrow> pystr \<Rightarrow> pystr \<Rightarrow> pystr \<Rightarrow> pystr \<Rightarrow> exn + handle"

record entry =
  user :: handle
  last_seen :: real

text \<open>
  The module's two global dictionaries and the trace. A \<open>dict\<close> keeps its keys in insertion
  order, so it is an association list; \<open>AList.update\<close> overwrites in place or appends, as
  \<open>d[k] = v\<close> does, and \<open>AList.delete\<close> is \<open>del d[k]\<close>.
\<close>

record world =
  telegram_users :: "(int \<times> entry) list"
  bridge_map :: "(pystr \<times> bridge) list"
  trace :: "event list"

definition emit :: "event \<Rightarrow> world \<Rightarrow> world" where
  "emit e w = w\<lparr>trace := trace w @ [e]\<rparr>"

record tg_message =
  msg_text :: "pystr option"
  chat_id :: int
  from_user :: "tg_user option"

record tg_update =
  message :: "tg_message option"

record irc_source =
  ident :: pystr
  nick :: pystr

section \<open>Helpers\<close>

definition build_bridge_map :: "config \<Rightarrow> world \<Rightarrow> world" where
  "build_bridge_map cfg w =
     w\<lparr>bridge_map :=
         fold (\<lambda>bridge m. AList.update (str_int (telegram_chat_id bridge)) bridge m)
           (bridges cfg) (bridge_map w)\<rparr>"

section \<open>Fake IRC user handling\<close>

text \<open>\<open>now\<close> is the value \<open>time.time()\<close> returns on line 144.\<close>

definition get_or_create_irc_user ::
    "irc \<Rightarrow> real \<Rightarrow> tg_user \<Rightarrow> world \<Rightarrow> (exn + handle) \<times> world" where
  "get_or_create_irc_user i now tg_user w =
     (let tg_id = user_id tg_user in
      case map_of (telegram_users w) tg_id of
        Some e \<Rightarrow> (Inr (user e), w)
      | None \<Rightarrow>
          (let cfg = telegram_cfg i;
               nick = build_nick_from_telegram tg_user cfg;
               realname = build_realname tg_user;
               w1 = emit (CreateUser nick (identity_ident cfg) (identity_host cfg) realname) w
           in case create_user i (trace w) nick (identity_ident cfg) (identity_host cfg) realname of
                Inl err \<Rightarrow> (Inl err, w1)
              | Inr u \<Rightarrow>
                  (let w2 = fold (\<lambda>bridge. emit (Join u (irc_channel bridge))) (bridges cfg) w1;
                       w3 = w2\<lparr>telegram_users :=
                                AList.update tg_id \<lparr>user = u, last_seen = now\<rparr> (telegram_users w2)\<rparr>;
                       w4 = emit (LogInfo (py ''[telegram] created IRC user: '' @ nick)) w3
                   in (Inr u, w4))))"

section \<open>Telegram -> IRC\<close>

text \<open>
  \<open>t_create\<close> is the clock reading inside \<open>get_or_create_irc_user\<close> (if it is reached) and
  \<open>t_seen\<close> the later reading of line 87. The result is \<open>Inl\<close> when an exception leaves the
  handler: the handler has no \<open>try\<close>.
\<close>

definition on_telegram_message ::
    "irc \<Rightarrow> real \<Rightarrow> real \<Rightarrow> tg_update \<Rightarrow> world \<Rightarrow> (exn + unit) \<times> world" where
  "on_telegram_message i t_create t_seen upd w =
     (case message upd of
        None \<Rightarrow> (Inr (), w)
      | Some msg \<Rightarrow>
          if \<not> truthy (msg_text msg) then (Inr (), w)
          else
            (let cfg = telegram_cfg i;
                 chat = str_int (chat_id msg)
             in case map_of (bridge_map w) chat of
                  None \<Rightarrow> (Inr (), w)
                | Some bridge \<Rightarrow>
                    (let channel = irc_channel bridge
                     in case from_user msg of
                          None \<Rightarrow> (Inl AttributeError, w)
                        | Some tg_user \<Rightarrow>
                            (case get_or_create_irc_user i t_create tg_user w of
                               (Inl err, w1) \<Rightarrow> (Inl err, w1)
                             | (Inr u, w1) \<Rightarrow>
                                 (case map_of (telegram_users w1) (user_id tg_user) of
                                    None \<Rightarrow> (Inl KeyError, w1)
                                  | Some e \<Rightarrow>
                                      (let w2 = w1\<lparr>telegram_users :=
                                                  AList.update (user_id tg_user) (e\<lparr>last_seen := t_seen\<rparr>)
                                                    (telegram_users w1)\<rparr>;
                                           txt = slice_to (limits_message_max cfg) (or_empty (msg_text msg))
                                       in (Inr (), emit (SendPrivmsg channel txt u) w2)))))))"

section \<open>IRC -> Telegram\<close>

definition on_irc_privmsg :: "irc \<Rightarrow> irc_source \<Rightarrow> pystr \<Rightarrow> pystr \<Rightarrow> world \<Rightarrow> world" where
  "on_irc_privmsg i source target msg w =
     (let cfg = telegram_cfg i
      in if ident source = identity_ident cfg then w
         else fold (\<lambda>bridge w'.
                 if target = irc_channel bridge
                 then emit (SendMessage (telegram_chat_id bridge)
                              (py ''<'' @ nick source @ py ''> '' @ msg)) w'
                 else w')
               (bridges cfg) w)"

section \<open>Plugin lifecycle and idle cleanup\<close>

definition teardown :: "irc \<Rightarrow> world \<Rightarrow> world" where
  "teardown i w =
     fold (\<lambda>(tg_id, e). emit (Quit (user e) (py ''Telegram relay shutdown'')))
       (telegram_users w) (emit (LogInfo (py ''[telegram] plugin unloaded'')) w)"

text \<open>
  One pass of the \<open>for\<close> loop of \<open>start_cleanup_timer\<close> over the snapshot \<open>list(telegram_users)\<close>,
  and the body of its \<open>while True\<close> (after the sleep) with \<open>now\<close> the clock reading.

  Clock readings are IEEE doubles, here the real numbers they denote. On line 193 the code
  subtracts two doubles, and the result is rounded to a double: that operation is the parameter
  \<open>float_sub\<close> of the sweep, so that nothing is assumed about the rounding. Comparing the
  difference with the integer timeout is exact in Python.
\<close>

fun cleanup_keys ::
    "(real \<Rightarrow> real \<Rightarrow> real) \<Rightarrow> real \<Rightarrow> int \<Rightarrow> int list \<Rightarrow> world \<Rightarrow> exn + world" where
  "cleanup_keys float_sub now timeout [] w = Inr w"
| "cleanup_keys float_sub now timeout (tg_id # ks) w =
     (case map_of (telegram_users w) tg_id of
        None \<Rightarrow> Inl KeyError
      | Some e \<Rightarrow>
          if float_sub now (last_seen e) > of_int timeout
          then cleanup_keys float_sub now timeout ks
                 ((emit (Quit (user e) (py ''Telegram idle timeout'')) w)
                    \<lparr>telegram_users := AList.delete tg_id (telegram_users w)\<rparr>)
          else cleanup_keys float_sub now timeout ks w)"

definition cleanup_sweep ::
    "(real \<Rightarrow> real \<Rightarrow> real) \<Rightarrow> irc \<Rightarrow> real \<Rightarrow> world \<Rightarrow> exn + world" where
  "cleanup_sweep float_sub i now w =
     cleanup_keys float_sub now (cleanup_idle_timeout (telegram_cfg i))
       (map fst (telegram_users w)) w"

section \<open>Observations on runs\<close>

text \<open>
  These are not part of the plugin; they are used to state properties of its runs. The channels
  of the \<open>irc.send_privmsg\<close> calls in a trace, in order:
\<close>

fun privmsg_channels :: "event list \<Rightarrow> pystr list" where
  "privmsg_channels [] = []"
| "privmsg_channels (SendPrivmsg channel txt u # evs) = channel # privmsg_channels evs"
| "privmsg_channels (ev # evs) = privmsg_channels evs"

text \<open>The number of \<open>irc.create_user\<close> calls in a trace:\<close>

fun creations :: "event list \<Rightarrow> nat" where
  "creations [] = 0"
| "creations (CreateUser n a h r # evs) = Suc (creations evs)"
| "creations (ev # evs) = creations evs"

text \<open>
  A sequence of calls of \<open>get_or_create_irc_user\<close>, each with its clock reading and profile,
  threaded through the state; the results are collected in order.
\<close>

fun get_or_create_all ::
    "irc \<Rightarrow> (real \<times> tg_user) list \<Rightarrow> world \<Rightarrow> (exn + handle) list \<times> world" where
  "get_or_create_all i [] w = ([], w)"
| "get_or_create_all i ((now, tg_user) # calls) w =
     (case get_or_create_irc_user i now tg_user w of
        (r, w1) \<Rightarrow> (case get_or_create_all i calls w1 of (rs, w2) \<Rightarrow> (r # rs, w2)))"

section \<open>Concrete inputs\<close>

text \<open>
  A configuration with four bridges, two of which repeat an earlier remote chat id, and a local
  network whose \<open>create_user\<close> always succeeds with a fresh handle.
\<close>

definition ex_cfg :: config where
  "ex_cfg =
     \<lparr>enabled = True, identity_ident = py ''telegram'', identity_host = py ''bridge.invalid'',
      identity_suffix = py ''tg'', limits_nick_max = 10, limits_message_max = 5,
      cleanup_idle_timeout = 3600,
      bridges = [\<lparr>telegram_chat_id = 1, irc_channel = py ''#a''\<rparr>,
                 \<lparr>telegram_chat_id = 1, irc_channel = py ''#b''\<rparr>,
                 \<lparr>telegram_chat_id = 1, irc_channel = py ''#b''\<rparr>,
                 \<lparr>telegram_chat_id = 2, irc_channel = py ''#b''\<rparr>]\<rparr>"

definition ex_irc :: irc where
  "ex_irc = \<lparr>telegram_cfg = ex_cfg, create_user = (\<lambda>tr n a h r. Inr (length tr))\<rparr>"

definition ex_world0 :: world where
  "ex_world0 = \<lparr>telegram_users = [], bridge_map = [], trace = []\<rparr>"

definition ex_relay_source :: irc_source where
  "ex_relay_source = \<lparr>ident = py ''telegram'', nick = py ''alice/tg''\<rparr>"

definition ex_alice :: tg_user where
  "ex_alice =
     \<lparr>user_id = 7, username = Some (py ''alice_in_wonderland''), first_name = None,
      last_name = None\<rparr>"

definition ex_anon :: tg_user where
  "ex_anon = \<lparr>user_id = 42, username = None, first_name = Some [], last_name = None\<rparr>"

definition ex_named :: tg_user where
  "ex_named =
     \<lparr>user_id = 43, username = Some [], first_name = Some (py ''Ada ''),
      last_name = Some (py ''Love lace'')\<rparr>"

definition ex_emoji :: tg_user where
  "ex_emoji =
     \<lparr>user_id = 44, username = Some [128512, 128512, 128512], first_name = None,
      last_name = None\<rparr>"

definition ex_irc_failing :: irc where
  "ex_irc_failing = \<lparr>telegram_cfg = ex_cfg, create_user = (\<lambda>tr n a h r. Inl IrcError)\<rparr>"

definition ex_world_bridged :: world where
  "ex_world_bridged = build_bridge_map ex_cfg ex_world0"

definition ex_world_seen :: world where
  "ex_world_seen = ex_world_bridged\<lparr>telegram_users := [(7, \<lparr>user = 3, last_seen = 100\<rparr>)]\<rparr>"

definition ex_update :: tg_update where
  "ex_update =
     \<lparr>message =
        Some \<lparr>msg_text = Some (py ''hello world''), chat_id = 1, from_user = Some ex_alice\<rparr>\<rparr>"

text \<open>
  The subtraction of two doubles is exact when the exact difference is a double, as it is for
  the whole-second readings used below.
\<close>

definition ex_exact_sub :: "real \<Rightarrow> real \<Rightarrow> real" where
  "ex_exact_sub a b = a - b"

definition ex_world_idle :: world where
  "ex_world_idle =
     \<lparr>telegram_users =
        [(7, \<lparr>user = 3, last_seen = 6399\<rparr>), (8, \<lparr>user = 4, last_seen = 6401\<rparr>),
         (9, \<lparr>user = 5, last_seen = 6400\<rparr>)],
      bridge_map = [], trace = []\<rparr>"

definition ex_local_source :: irc_source where
  "ex_local_source = \<lparr>ident = py ''bob'', nick = py ''bob''\<rparr>"

definition ex_alice_renamed :: tg_user where
  "ex_alice_renamed =
     \<lparr>user_id = 7, username = None, first_name = Some (py ''Alice''), last_name = None\<rparr>"

text \<open>
  A local network whose first \<open>create_user\<close> raises and whose later ones succeed, and the states
  around an idle sweep that evicts the one identity there is.
\<close>

definition ex_irc_flaky :: irc where
  "ex_irc_flaky =
     \<lparr>telegram_cfg = ex_cfg,
      create_user = (\<lambda>tr n a h r. if tr = [] then Inl IrcError else Inr (length tr))\<rparr>"

definition ex_world_created :: world where
  "ex_world_created = snd (get_or_create_irc_user ex_irc 0 ex_alice ex_world0)"

definition ex_world_swept :: world where
  "ex_world_swept =
     ex_world_created
       \<lparr>telegram_users := [],
        trace := trace ex_world_created @ [Quit 0 (py ''Telegram idle timeout'')]\<rparr>"

section \<open>Basic facts about the trace\<close>

lemma trace_emit [simp]: "trace (emit e w) = trace w @ [e]"
  by (simp add: emit_def)

lemma telegram_users_emit [simp]: "telegram_users (emit e w) = telegram_users w"
  by (simp add: emit_def)

lemma bridge_map_emit [simp]: "bridge_map (emit e w) = bridge_map w"
  by (simp add: emit_def)

lemma fold_emit_cond:
  "fold (\<lambda>b w'. if P b then emit (f b) w' else w') bs w =
     w\<lparr>trace := trace w @ map f (filter P bs)\<rparr>"
  by (induction bs arbitrary: w) (simp_all add: emit_def)

lemma fold_emit: "fold (\<lambda>b. emit (f b)) bs w = w\<lparr>trace := trace w @ map f bs\<rparr>"
  by (induction bs arbitrary: w) (simp_all add: emit_def)

lemma fold_emit_pair:
  "fold (\<lambda>(k, e). emit (f k e)) xs w = w\<lparr>trace := trace w @ map (\<lambda>(k, e). f k e) xs\<rparr>"
  by (induction xs arbitrary: w) (auto simp: emit_def)

section \<open>Anti-loop\<close>

text \<open>
  Claim C2. A local message whose source ident equals the configured relay ident leaves the
  whole state as it was, whatever the target channel and the text: nothing is appended to the
  trace, so no \<open>SendMessage\<close> to a remote chat is made.
\<close>

theorem anti_loop_no_send:
  "ident source = identity_ident (telegram_cfg i) \<Longrightarrow>
   on_irc_privmsg i source target msg w = w"
  by (simp add: on_irc_privmsg_def)

theorem anti_loop_no_send_witness:
  "ident ex_relay_source = identity_ident (telegram_cfg ex_irc) \<and>
   on_irc_privmsg ex_irc ex_relay_source (py ''#b'') (py ''hi'') ex_world0 = ex_world0"
  using anti_loop_no_send [of ex_relay_source ex_irc "py ''#b''" "py ''hi''" ex_world0]
  by (simp add: ex_irc_def ex_cfg_def ex_relay_source_def)

section \<open>Teardown\<close>

text \<open>
  Claim C9. Teardown logs, then calls \<open>irc.quit\<close> once for each entry of \<open>telegram_users\<close>, in
  the table's order, and leaves \<open>telegram_users\<close> (and \<open>bridge_map\<close>) exactly as it was: no
  entry is removed.
\<close>

theorem teardown_departs_keeps_table:
  "telegram_users (teardown i w) = telegram_users w \<and>
   bridge_map (teardown i w) = bridge_map w \<and>
   trace (teardown i w) =
     trace w @ LogInfo (py ''[telegram] plugin unloaded'') #
       map (\<lambda>(tg_id, e). Quit (user e) (py ''Telegram relay shutdown'')) (telegram_users w)"
  by (simp add: teardown_def fold_emit_pair)

section \<open>Nicknames\<close>

lemma allowed_not_space: "irc_allowed c \<Longrightarrow> \<not> is_space c"
  by (auto simp: irc_allowed_def is_space_def)

lemma filter_allowed_nospace:
  "filter (\<lambda>c. \<not> is_space c \<and> irc_allowed c) s = filter irc_allowed s"
  by (rule filter_cong) (auto dest: allowed_not_space)

lemma sanitize_eq:
  "sanitize_irc_name s =
     (if filter irc_allowed s = [] then py ''TGUser'' else filter irc_allowed s)"
  by (simp add: sanitize_irc_name_def filter_allowed_nospace Let_def)

text \<open>
  Claim C6. With a non-negative \<open>limits.nick_max\<close>: when the sanitized base name, \<open>/\<close> and the
  suffix together are longer than \<open>nick_max\<close>, the nickname is the first \<open>nick_max\<close> characters
  of that string and has exactly \<open>nick_max\<close> characters; otherwise it is that string, whole.
\<close>

theorem nick_truncation_boundary:
  assumes "0 \<le> limits_nick_max cfg"
  shows "(limits_nick_max cfg
            < int (length (sanitize_irc_name (nick_base u) @ py ''/'' @ identity_suffix cfg)) \<longrightarrow>
          int (length (build_nick_from_telegram u cfg)) = limits_nick_max cfg \<and>
          build_nick_from_telegram u cfg =
            take (nat (limits_nick_max cfg))
              (sanitize_irc_name (nick_base u) @ py ''/'' @ identity_suffix cfg)) \<and>
         (int (length (sanitize_irc_name (nick_base u) @ py ''/'' @ identity_suffix cfg))
            \<le> limits_nick_max cfg \<longrightarrow>
          build_nick_from_telegram u cfg =
            sanitize_irc_name (nick_base u) @ py ''/'' @ identity_suffix cfg)"
  using assms by (auto simp: build_nick_from_telegram_def slice_to_def Let_def)

theorem nick_truncation_boundary_witness:
  "0 \<le> limits_nick_max ex_cfg \<and>
   limits_nick_max ex_cfg
     < int (length (sanitize_irc_name (nick_base ex_alice) @ py ''/'' @ identity_suffix ex_cfg)) \<and>
   int (length (build_nick_from_telegram ex_alice ex_cfg)) = 10 \<and>
   build_nick_from_telegram ex_alice ex_cfg = py ''alice_in_w''"
  using nick_truncation_boundary [of ex_cfg ex_alice]
  by (simp add: ex_cfg_def ex_alice_def nick_base_def truthy_def or_empty_def sanitize_eq
      irc_allowed_def py_def)

lemma nick_base_nonempty: "nick_base u \<noteq> []"
  by (auto simp: nick_base_def truthy_def or_empty_def py_def Let_def split: option.splits)

lemma sanitize_nonempty: "sanitize_irc_name s \<noteq> []"
  by (simp add: sanitize_eq py_def)

text \<open>
  Claim C7. The base name: a non-empty username is taken as it is; without one, the first and
  last name are concatenated with no separator; if that is empty, the base is \<open>tg\<close> followed by
  \<open>str(id)\<close>. Sanitizing keeps exactly the characters of the nickname alphabet (whitespace is
  outside it) and substitutes \<open>TGUser\<close> when none is left, as for a username of three emoji.
  Neither the base name nor the sanitized base name is ever empty.
\<close>

theorem naming_fallback_nonempty:
  "(username u = Some s \<and> s \<noteq> [] \<longrightarrow> nick_base u = s) \<and>
   (\<not> truthy (username u) \<and> or_empty (first_name u) @ or_empty (last_name u) \<noteq> [] \<longrightarrow>
      nick_base u = or_empty (first_name u) @ or_empty (last_name u)) \<and>
   (\<not> truthy (username u) \<and> or_empty (first_name u) = [] \<and> or_empty (last_name u) = [] \<longrightarrow>
      nick_base u = py ''tg'' @ str_int (user_id u)) \<and>
   sanitize_irc_name name =
     (if filter irc_allowed name = [] then py ''TGUser'' else filter irc_allowed name) \<and>
   nick_base u \<noteq> [] \<and>
   sanitize_irc_name (nick_base u) \<noteq> [] \<and>
   sanitize_irc_name [128512, 128512, 128512] = py ''TGUser''"
proof -
  have "sanitize_irc_name [128512, 128512, 128512] = py ''TGUser''"
    by (simp add: sanitize_eq irc_allowed_def)
  moreover have "username u = Some s \<and> s \<noteq> [] \<longrightarrow> nick_base u = s"
    by (simp add: nick_base_def truthy_def or_empty_def)
  moreover have "\<not> truthy (username u) \<and> or_empty (first_name u) @ or_empty (last_name u) \<noteq> [] \<longrightarrow>
      nick_base u = or_empty (first_name u) @ or_empty (last_name u)"
    by (simp add: nick_base_def Let_def)
  moreover have "\<not> truthy (username u) \<and> or_empty (first_name u) = [] \<and> or_empty (last_name u) = [] \<longrightarrow>
      nick_base u = py ''tg'' @ str_int (user_id u)"
    by (simp add: nick_base_def Let_def)
  ultimately show ?thesis
    using sanitize_eq [of name] nick_base_nonempty [of u] sanitize_nonempty [of "nick_base u"]
    by blast
qed

theorem naming_fallback_nonempty_witness:
  "username ex_alice = Some (py ''alice_in_wonderland'') \<and> py ''alice_in_wonderland'' \<noteq> [] \<and>
   nick_base ex_alice = py ''alice_in_wonderland'' \<and>
   \<not> truthy (username ex_named) \<and> or_empty (first_name ex_named) @ or_empty (last_name ex_named) \<noteq> [] \<and>
   nick_base ex_named = py ''Ada Love lace'' \<and>
   sanitize_irc_name (nick_base ex_named) = py ''AdaLovelace'' \<and>
   \<not> truthy (username ex_anon) \<and> or_empty (first_name ex_anon) = [] \<and> or_empty (last_name ex_anon) = [] \<and>
   nick_base ex_anon = py ''tg42'' \<and>
   sanitize_irc_name (nick_base ex_emoji) = py ''TGUser''"
  using naming_fallback_nonempty [of ex_alice "py ''alice_in_wonderland''" "nick_base ex_named"]
    naming_fallback_nonempty [of ex_named "[]" "nick_base ex_emoji"]
    naming_fallback_nonempty [of ex_anon "[]" "[]"]
  by (simp add: ex_alice_def ex_named_def ex_anon_def ex_emoji_def truthy_def or_empty_def py_def
      irc_allowed_def str_int_def str_nat.simps nick_base_def)

section \<open>Creation and lookup of identities\<close>

lemma get_or_create_existing:
  "map_of (telegram_users w) (user_id u) = Some e \<Longrightarrow>
   get_or_create_irc_user i now u w = (Inr (user e), w)"
  by (simp add: get_or_create_irc_user_def)

lemma get_or_create_failing:
  "map_of (telegram_users w) (user_id u) = None \<Longrightarrow>
   create_user i (trace w) (build_nick_from_telegram u (telegram_cfg i))
     (identity_ident (telegram_cfg i)) (identity_host (telegram_cfg i)) (build_realname u) = Inl err \<Longrightarrow>
   get_or_create_irc_user i now u w =
     (Inl err, emit (CreateUser (build_nick_from_telegram u (telegram_cfg i))
        (identity_ident (telegram_cfg i)) (identity_host (telegram_cfg i)) (build_realname u)) w)"
  by (simp add: get_or_create_irc_user_def Let_def)

lemma get_or_create_new:
  "map_of (telegram_users w) (user_id u) = None \<Longrightarrow>
   create_user i (trace w) (build_nick_from_telegram u (telegram_cfg i))
     (identity_ident (telegram_cfg i)) (identity_host (telegram_cfg i)) (build_realname u) = Inr h \<Longrightarrow>
   get_or_create_irc_user i now u w =
     (Inr h,
      w\<lparr>telegram_users := AList.update (user_id u) \<lparr>user = h, last_seen = now\<rparr> (telegram_users w),
        trace := trace w @
          CreateUser (build_nick_from_telegram u (telegram_cfg i))
            (identity_ident (telegram_cfg i)) (identity_host (telegram_cfg i)) (build_realname u) #
          map (\<lambda>b. Join h (irc_channel b)) (bridges (telegram_cfg i)) @
          [LogInfo (py ''[telegram] created IRC user: '' @ build_nick_from_telegram u (telegram_cfg i))]\<rparr>)"
  by (simp add: get_or_create_irc_user_def Let_def fold_emit emit_def)

lemma get_or_create_user_stored:
  "get_or_create_irc_user i now u w = (Inr h, w') \<Longrightarrow>
   \<exists>e. map_of (telegram_users w') (user_id u) = Some e \<and> user e = h"
  by (auto simp: get_or_create_irc_user_def Let_def fold_emit emit_def AList.update_conv'
      split: option.splits sum.splits)

lemma on_telegram_message_existing:
  assumes "message upd = Some msg" "truthy (msg_text msg)"
    "map_of (bridge_map w) (str_int (chat_id msg)) = Some b" "from_user msg = Some u"
    "map_of (telegram_users w) (user_id u) = Some e"
  shows "on_telegram_message i t_create t_seen upd w =
    (Inr (), w\<lparr>telegram_users := AList.update (user_id u) (e\<lparr>last_seen := t_seen\<rparr>) (telegram_users w),
               trace := trace w @ [SendPrivmsg (irc_channel b)
                  (slice_to (limits_message_max (telegram_cfg i)) (or_empty (msg_text msg))) (user e)]\<rparr>)"
  using assms
  by (simp add: on_telegram_message_def Let_def get_or_create_existing emit_def)

lemma on_telegram_message_failing:
  assumes "message upd = Some msg" "truthy (msg_text msg)"
    "map_of (bridge_map w) (str_int (chat_id msg)) = Some b" "from_user msg = Some u"
    "map_of (telegram_users w) (user_id u) = None"
    "create_user i (trace w) (build_nick_from_telegram u (telegram_cfg i))
       (identity_ident (telegram_cfg i)) (identity_host (telegram_cfg i)) (build_realname u) = Inl err"
  shows "on_telegram_message i t_create t_seen upd w =
     (Inl err, emit (CreateUser (build_nick_from_telegram u (telegram_cfg i))
        (identity_ident (telegram_cfg i)) (identity_host (telegram_cfg i)) (build_realname u)) w)"
  using assms
  by (simp add: on_telegram_message_def Let_def get_or_create_failing)

lemma on_telegram_message_new:
  assumes "message upd = Some msg" "truthy (msg_text msg)"
    "map_of (bridge_map w) (str_int (chat_id msg)) = Some b" "from_user msg = Some u"
    "map_of (telegram_users w) (user_id u) = None"
    "create_user i (trace w) (build_nick_from_telegram u (telegram_cfg i))
       (identity_ident (telegram_cfg i)) (identity_host (telegram_cfg i)) (build_realname u) = Inr h"
  shows "on_telegram_message i t_create t_seen upd w =
    (Inr (), w\<lparr>telegram_users := AList.update (user_id u) \<lparr>user = h, last_seen = t_seen\<rparr> (telegram_users w),
        trace := trace w @
          CreateUser (build_nick_from_telegram u (telegram_cfg i))
            (identity_ident (telegram_cfg i)) (identity_host (telegram_cfg i)) (build_realname u) #
          map (\<lambda>b. Join h (irc_channel b)) (bridges (telegram_cfg i)) @
          [LogInfo (py ''[telegram] created IRC user: '' @ build_nick_from_telegram u (telegram_cfg i)),
           SendPrivmsg (irc_channel b)
             (slice_to (limits_message_max (telegram_cfg i)) (or_empty (msg_text msg))) h]\<rparr>)"
  using assms
  by (simp add: on_telegram_message_def Let_def get_or_create_new emit_def AList.update_conv')

lemma ex_world_bridged_eq:
  "ex_world_bridged =
     \<lparr>telegram_users = [],
      bridge_map = [(py ''1'', \<lparr>telegram_chat_id = 1, irc_channel = py ''#b''\<rparr>),
                    (py ''2'', \<lparr>telegram_chat_id = 2, irc_channel = py ''#b''\<rparr>)],
      trace = []\<rparr>"
  by (simp add: ex_world_bridged_def build_bridge_map_def ex_cfg_def ex_world0_def str_int_def
      str_nat.simps py_def)

text \<open>
  Claim C4, as stated, fails: \<open>get_or_create_irc_user\<close> only reads an existing entry. Called at
  time 200 for a participant last seen at time 100, it leaves \<open>last_seen\<close> at 100.
\<close>

theorem get_or_create_keeps_last_seen_counterexample:
  "map_of (telegram_users ex_world_seen) (user_id ex_alice) = Some \<lparr>user = 3, last_seen = 100\<rparr> \<and>
   map_of (telegram_users (snd (get_or_create_irc_user ex_irc 200 ex_alice ex_world_seen)))
     (user_id ex_alice) = Some \<lparr>user = 3, last_seen = 100\<rparr>"
  by (simp add: get_or_create_irc_user_def ex_world_seen_def ex_alice_def)

text \<open>
  Claim C4, amended. For an id that has an entry, \<open>get_or_create_irc_user\<close> returns the stored
  handle and changes nothing, \<open>last_seen\<close> included. The update is made by its caller:
  \<open>on_telegram_message\<close>, for a text message of a bridged chat, sets the participant's
  \<open>last_seen\<close> to the current time, for an existing identity and whenever it relays.
\<close>

theorem last_seen_updated_by_handler:
  "(map_of (telegram_users w) (user_id u) = Some e \<longrightarrow>
      get_or_create_irc_user i now u w = (Inr (user e), w)) \<and>
   (message upd = Some msg \<and> truthy (msg_text msg) \<and>
    map_of (bridge_map w) (str_int (chat_id msg)) = Some b \<and> from_user msg = Some u \<and>
    map_of (telegram_users w) (user_id u) = Some e \<longrightarrow>
      fst (on_telegram_message i t_create t_seen upd w) = Inr () \<and>
      map_of (telegram_users (snd (on_telegram_message i t_create t_seen upd w))) (user_id u) =
        Some (e\<lparr>last_seen := t_seen\<rparr>)) \<and>
   (message upd = Some msg \<and> truthy (msg_text msg) \<and>
    map_of (bridge_map w) (str_int (chat_id msg)) = Some b \<and> from_user msg = Some u \<and>
    on_telegram_message i t_create t_seen upd w = (Inr (), w') \<longrightarrow>
      (\<exists>e'. map_of (telegram_users w') (user_id u) = Some e' \<and> last_seen e' = t_seen))"
proof (intro conjI impI)
  assume "map_of (telegram_users w) (user_id u) = Some e"
  then show "get_or_create_irc_user i now u w = (Inr (user e), w)"
    by (rule get_or_create_existing)
next
  assume a: "message upd = Some msg \<and> truthy (msg_text msg) \<and>
    map_of (bridge_map w) (str_int (chat_id msg)) = Some b \<and> from_user msg = Some u \<and>
    map_of (telegram_users w) (user_id u) = Some e"
  then have eq: "on_telegram_message i t_create t_seen upd w =
    (Inr (), w\<lparr>telegram_users := AList.update (user_id u) (e\<lparr>last_seen := t_seen\<rparr>) (telegram_users w),
               trace := trace w @ [SendPrivmsg (irc_channel b)
                  (slice_to (limits_message_max (telegram_cfg i)) (or_empty (msg_text msg))) (user e)]\<rparr>)"
    by (intro on_telegram_message_existing) simp_all
  show "fst (on_telegram_message i t_create t_seen upd w) = Inr ()"
    by (simp add: eq)
  show "map_of (telegram_users (snd (on_telegram_message i t_create t_seen upd w))) (user_id u) =
        Some (e\<lparr>last_seen := t_seen\<rparr>)"
    by (simp add: eq AList.update_conv')
next
  assume a: "message upd = Some msg \<and> truthy (msg_text msg) \<and>
    map_of (bridge_map w) (str_int (chat_id msg)) = Some b \<and> from_user msg = Some u \<and>
    on_telegram_message i t_create t_seen upd w = (Inr (), w')"
  then show "\<exists>e'. map_of (telegram_users w') (user_id u) = Some e' \<and> last_seen e' = t_seen"
    by (auto simp: on_telegram_message_def Let_def emit_def AList.update_conv'
        split: prod.splits sum.splits option.splits)
qed

theorem last_seen_updated_by_handler_witness:
  "map_of (telegram_users ex_world_seen) (user_id ex_alice) = Some \<lparr>user = 3, last_seen = 100\<rparr> \<and>
   get_or_create_irc_user ex_irc 200 ex_alice ex_world_seen = (Inr 3, ex_world_seen) \<and>
   message ex_update = Some \<lparr>msg_text = Some (py ''hello world''), chat_id = 1, from_user = Some ex_alice\<rparr> \<and>
   truthy (Some (py ''hello world'')) \<and>
   map_of (bridge_map ex_world_seen) (str_int 1) = Some \<lparr>telegram_chat_id = 1, irc_channel = py ''#b''\<rparr> \<and>
   fst (on_telegram_message ex_irc 150 200 ex_update ex_world_seen) = Inr () \<and>
   map_of (telegram_users (snd (on_telegram_message ex_irc 150 200 ex_update ex_world_seen))) 7 =
     Some \<lparr>user = 3, last_seen = 200\<rparr>"
  using last_seen_updated_by_handler [of ex_world_seen ex_alice "\<lparr>user = 3, last_seen = 100\<rparr>" ex_irc 200
      ex_update "\<lparr>msg_text = Some (py ''hello world''), chat_id = 1, from_user = Some ex_alice\<rparr>"
      "\<lparr>telegram_chat_id = 1, irc_channel = py ''#b''\<rparr>" 150 200
      "snd (on_telegram_message ex_irc 150 200 ex_update ex_world_seen)"]
  by (simp add: ex_world_seen_def ex_world_bridged_eq ex_alice_def ex_update_def truthy_def
      str_int_def str_nat.simps py_def)

section \<open>Registration failure\<close>

text \<open>
  Claim C8, as stated, fails: when \<open>irc.create_user\<close> raises, the exception leaves
  \<open>on_telegram_message\<close>, and the only call recorded is the failed \<open>create_user\<close>: nothing is
  logged.
\<close>

theorem registration_failure_propagates_counterexample:
  "map_of (telegram_users ex_world_bridged) (user_id ex_alice) = None \<and>
   on_telegram_message ex_irc_failing 100 101 ex_update ex_world_bridged =
     (Inl IrcError,
      ex_world_bridged\<lparr>trace :=
        [CreateUser (py ''alice_in_w'') (py ''telegram'') (py ''bridge.invalid'')
           (py ''Telegram @alice_in_wonderland'')]\<rparr>)"
  by (simp add: on_telegram_message_def get_or_create_irc_user_def Let_def emit_def
      ex_world_bridged_eq ex_update_def ex_alice_def ex_irc_failing_def ex_cfg_def truthy_def
      or_empty_def str_int_def str_nat.simps py_def build_nick_from_telegram_def nick_base_def
      sanitize_eq irc_allowed_def slice_to_def build_realname_def)

text \<open>
  Claim C8, amended. When \<open>irc.create_user\<close> raises for a new participant, the handler raises
  the same exception to its caller; it has made no other call (no post to the channel, no log
  entry) and both tables are as before.
\<close>

theorem registration_failure_drops_message:
  assumes "message upd = Some msg" "truthy (msg_text msg)"
    "map_of (bridge_map w) (str_int (chat_id msg)) = Some b" "from_user msg = Some u"
    "map_of (telegram_users w) (user_id u) = None"
    "create_user i (trace w) (build_nick_from_telegram u (telegram_cfg i))
       (identity_ident (telegram_cfg i)) (identity_host (telegram_cfg i)) (build_realname u) = Inl err"
  shows "on_telegram_message i t_create t_seen upd w =
     (Inl err,
      w\<lparr>trace := trace w @
         [CreateUser (build_nick_from_telegram u (telegram_cfg i))
            (identity_ident (telegram_cfg i)) (identity_host (telegram_cfg i)) (build_realname u)]\<rparr>)"
  using on_telegram_message_failing [OF assms] by (simp add: emit_def)

theorem registration_failure_drops_message_witness:
  "message ex_update = Some \<lparr>msg_text = Some (py ''hello world''), chat_id = 1, from_user = Some ex_alice\<rparr> \<and>
   truthy (Some (py ''hello world'')) \<and>
   map_of (bridge_map ex_world_bridged) (str_int 1) = Some \<lparr>telegram_chat_id = 1, irc_channel = py ''#b''\<rparr> \<and>
   map_of (telegram_users ex_world_bridged) (user_id ex_alice) = None \<and>
   create_user ex_irc_failing (trace ex_world_bridged) (build_nick_from_telegram ex_alice (telegram_cfg ex_irc_failing))
       (identity_ident (telegram_cfg ex_irc_failing)) (identity_host (telegram_cfg ex_irc_failing)) (build_realname ex_alice) = Inl IrcError \<and>
   fst (on_telegram_message ex_irc_failing 100 101 ex_update ex_world_bridged) = Inl IrcError \<and>
   telegram_users (snd (on_telegram_message ex_irc_failing 100 101 ex_update ex_world_bridged)) = []"
  using registration_failure_drops_message [of ex_update
      "\<lparr>msg_text = Some (py ''hello world''), chat_id = 1, from_user = Some ex_alice\<rparr>"
      ex_world_bridged "\<lparr>telegram_chat_id = 1, irc_channel = py ''#b''\<rparr>" ex_alice ex_irc_failing
      IrcError 100 101]
  by (simp add: ex_world_bridged_eq ex_update_def ex_irc_failing_def truthy_def
      str_int_def str_nat.simps py_def)

section \<open>Decimal rendering is injective\<close>




lemma str_nat_nonempty: "str_nat n \<noteq> []"
  by (cases "n < 10") (simp_all add: str_nat.simps [of n])



section \<open>The bridge map\<close>





section \<open>Idle cleanup\<close>

lemma delete_as_filter: "AList.delete k al = filter (\<lambda>p. fst p \<noteq> k) al"
  by (induction al) auto

lemma cleanup_keys_entries:
  "distinct (map fst xs) \<Longrightarrow> \<forall>p\<in>set xs. map_of (telegram_users w) (fst p) = Some (snd p) \<Longrightarrow>
   cleanup_keys float_sub now t (map fst xs) w =
     Inr (w\<lparr>telegram_users :=
              filter (\<lambda>p. fst p \<notin> fst ` set (filter (\<lambda>p. float_sub now (last_seen (snd p)) > of_int t) xs))
                (telegram_users w),
            trace := trace w @
              map (\<lambda>p. Quit (user (snd p)) (py ''Telegram idle timeout''))
                (filter (\<lambda>p. float_sub now (last_seen (snd p)) > of_int t) xs)\<rparr>)"
proof (induction xs arbitrary: w)
  case Nil
  show ?case by simp
next
  case (Cons x xs)
  obtain k e where x: "x = (k, e)" by (cases x)
  from Cons.prems x have look: "map_of (telegram_users w) k = Some e" by simp
  from Cons.prems x have knot: "k \<notin> fst ` set xs" and dist: "distinct (map fst xs)" by auto
  show ?case
  proof (cases "float_sub now (last_seen e) > of_int t")
    case True
    let ?w1 = "(emit (Quit (user e) (py ''Telegram idle timeout'')) w)
                 \<lparr>telegram_users := AList.delete k (telegram_users w)\<rparr>"
    have "\<forall>p\<in>set xs. map_of (telegram_users ?w1) (fst p) = Some (snd p)"
      using Cons.prems knot by (auto simp: AList.delete_conv')
    from Cons.IH [OF dist this] True look x show ?thesis
      by (simp add: emit_def delete_as_filter)
  next
    case False
    have "\<forall>p\<in>set xs. map_of (telegram_users w) (fst p) = Some (snd p)"
      using Cons.prems by simp
    from Cons.IH [OF dist this] False look x show ?thesis
      by simp
  qed
qed

lemma idle_key_iff:
  "distinct (map fst xs) \<Longrightarrow> p \<in> set xs \<Longrightarrow> fst p \<in> fst ` set (filter Q xs) \<longleftrightarrow> Q p"
proof (cases p)
  case (Pair k e)
  assume d: "distinct (map fst xs)" and m: "p \<in> set xs"
  show ?thesis
  proof
    assume "fst p \<in> fst ` set (filter Q xs)"
    then obtain e' where e': "(k, e') \<in> set xs" "Q (k, e')"
      using Pair by auto
    with d m Pair have "e' = e" by (auto dest: eq_key_imp_eq_value)
    with e' Pair show "Q p" by simp
  next
    assume "Q p"
    with m have "p \<in> set (filter Q xs)" by simp
    then show "fst p \<in> fst ` set (filter Q xs)" by (rule imageI)
  qed
qed

lemma cleanup_sweep_eq:
  assumes "distinct (map fst (telegram_users w))"
  shows "cleanup_sweep float_sub i now w =
     Inr (w\<lparr>telegram_users :=
              filter (\<lambda>p. \<not> float_sub now (last_seen (snd p)) > of_int (cleanup_idle_timeout (telegram_cfg i)))
                (telegram_users w),
            trace := trace w @
              map (\<lambda>p. Quit (user (snd p)) (py ''Telegram idle timeout''))
                (filter (\<lambda>p. float_sub now (last_seen (snd p)) > of_int (cleanup_idle_timeout (telegram_cfg i)))
                   (telegram_users w))\<rparr>)"
proof -
  have look: "\<forall>p\<in>set (telegram_users w). map_of (telegram_users w) (fst p) = Some (snd p)"
    using assms by simp
  have "filter (\<lambda>p. fst p \<notin> fst ` set (filter (\<lambda>p. float_sub now (last_seen (snd p)) > of_int (cleanup_idle_timeout (telegram_cfg i))) (telegram_users w)))
                (telegram_users w) =
        filter (\<lambda>p. \<not> float_sub now (last_seen (snd p)) > of_int (cleanup_idle_timeout (telegram_cfg i)))
                (telegram_users w)"
    by (rule filter_cong [OF refl]) (simp only: idle_key_iff [OF assms])
  with cleanup_keys_entries [OF assms look] show ?thesis
    by (simp add: cleanup_sweep_def)
qed

section \<open>Posts to local channels\<close>

lemma privmsg_channels_append [simp]:
  "privmsg_channels (xs @ ys) = privmsg_channels xs @ privmsg_channels ys"
  by (induction xs rule: privmsg_channels.induct) simp_all

lemma privmsg_channels_joins [simp]: "privmsg_channels (map (\<lambda>b. Join h (f b)) bs) = []"
  by (induction bs) simp_all

section \<open>Idle eviction\<close>

lemma sweep_boundary:
  assumes "distinct (map fst (telegram_users w))"
  shows "\<exists>w'. cleanup_sweep float_sub i now w = Inr w' \<and>
     telegram_users w' =
       filter (\<lambda>(tg_id, e). float_sub now (last_seen e) \<le> of_int (cleanup_idle_timeout (telegram_cfg i)))
         (telegram_users w) \<and>
     trace w' = trace w @
       map (\<lambda>(tg_id, e). Quit (user e) (py ''Telegram idle timeout''))
         (filter (\<lambda>(tg_id, e). float_sub now (last_seen e) > of_int (cleanup_idle_timeout (telegram_cfg i)))
            (telegram_users w)) \<and>
     bridge_map w' = bridge_map w \<and>
     (\<forall>(tg_id, e) \<in> set (telegram_users w).
        (float_sub now (last_seen e) > of_int (cleanup_idle_timeout (telegram_cfg i)) \<longrightarrow>
           map_of (telegram_users w') tg_id = None \<and>
           Quit (user e) (py ''Telegram idle timeout'') \<in> set (trace w')) \<and>
        (float_sub now (last_seen e) \<le> of_int (cleanup_idle_timeout (telegram_cfg i)) \<longrightarrow>
           map_of (telegram_users w') tg_id = Some e))"
proof -
  let ?T = "real_of_int (cleanup_idle_timeout (telegram_cfg i))"
  let ?keep = "filter (\<lambda>p. \<not> float_sub now (last_seen (snd p)) > ?T) (telegram_users w)"
  let ?gone = "filter (\<lambda>p. float_sub now (last_seen (snd p)) > ?T) (telegram_users w)"
  let ?w' = "w\<lparr>telegram_users := ?keep,
               trace := trace w @ map (\<lambda>p. Quit (user (snd p)) (py ''Telegram idle timeout'')) ?gone\<rparr>"
  have sweep: "cleanup_sweep float_sub i now w = Inr ?w'"
    by (rule cleanup_sweep_eq [OF assms])
  have keep: "?keep =
      filter (\<lambda>(tg_id, e). float_sub now (last_seen e) \<le> ?T) (telegram_users w)"
    by (rule filter_cong) (auto simp: not_less)
  have gone: "map (\<lambda>p. Quit (user (snd p)) (py ''Telegram idle timeout'')) ?gone =
      map (\<lambda>(tg_id, e). Quit (user e) (py ''Telegram idle timeout''))
         (filter (\<lambda>(tg_id, e). float_sub now (last_seen e) > ?T) (telegram_users w))"
    by (simp add: case_prod_unfold)
  have each: "\<forall>(tg_id, e) \<in> set (telegram_users w).
        (float_sub now (last_seen e) > ?T \<longrightarrow>
           map_of ?keep tg_id = None \<and>
           Quit (user e) (py ''Telegram idle timeout'') \<in> set (trace ?w')) \<and>
        (float_sub now (last_seen e) \<le> ?T \<longrightarrow> map_of ?keep tg_id = Some e)"
  proof (clarify, intro conjI impI)
    fix k e
    assume m: "(k, e) \<in> set (telegram_users w)" and idle: "float_sub now (last_seen e) > ?T"
    have "k \<notin> fst ` set ?keep"
      using idle_key_iff [OF assms m, of "\<lambda>p. \<not> float_sub now (last_seen (snd p)) > ?T"] idle by simp
    then show "map_of ?keep k = None"
      by (simp add: map_of_eq_None_iff)
    from m idle show "Quit (user e) (py ''Telegram idle timeout'') \<in> set (trace ?w')"
      by force
  next
    fix k e
    assume m: "(k, e) \<in> set (telegram_users w)" and fresh: "float_sub now (last_seen e) \<le> ?T"
    have "distinct (map fst ?keep)"
      using assms by (simp add: distinct_map_filter)
    moreover from m fresh have "(k, e) \<in> set ?keep" by simp
    ultimately show "map_of ?keep k = Some e" by simp
  qed
  show ?thesis
    apply (rule exI [of _ ?w'])
    using sweep keep gone each by simp
qed

text \<open>
  Claim C5. A sweep at time \<open>now\<close> over a table with distinct keys (as a \<open>dict\<close> has) ends
  normally. With \<open>now - last_seen\<close> the difference as the code computes it (\<open>float_sub\<close>), every
  identity with \<open>now - last_seen > idle_timeout\<close> gets one \<open>irc.quit\<close> and is deleted from the
  table, and every identity with \<open>now - last_seen \<le> idle_timeout\<close> stays, as it was. For an
  identity whose difference the code computes exactly, that is the exact difference: with
  \<open>idle_timeout = 3600\<close>, an identity last active 3601 seconds ago is evicted, and one last
  active 3599 or exactly 3600 seconds ago is retained.
\<close>

theorem idle_eviction_boundary:
  assumes "distinct (map fst (telegram_users w))"
  shows "\<exists>w'. cleanup_sweep float_sub i now w = Inr w' \<and>
     telegram_users w' =
       filter (\<lambda>(tg_id, e).
           float_sub now (last_seen e) \<le> of_int (cleanup_idle_timeout (telegram_cfg i)))
         (telegram_users w) \<and>
     trace w' = trace w @
       map (\<lambda>(tg_id, e). Quit (user e) (py ''Telegram idle timeout''))
         (filter (\<lambda>(tg_id, e).
             float_sub now (last_seen e) > of_int (cleanup_idle_timeout (telegram_cfg i)))
            (telegram_users w)) \<and>
     bridge_map w' = bridge_map w \<and>
     (\<forall>(tg_id, e) \<in> set (telegram_users w).
        (float_sub now (last_seen e) > of_int (cleanup_idle_timeout (telegram_cfg i)) \<longrightarrow>
           map_of (telegram_users w') tg_id = None \<and>
           Quit (user e) (py ''Telegram idle timeout'') \<in> set (trace w')) \<and>
        (float_sub now (last_seen e) \<le> of_int (cleanup_idle_timeout (telegram_cfg i)) \<longrightarrow>
           map_of (telegram_users w') tg_id = Some e)) \<and>
     (\<forall>(tg_id, e) \<in> set (telegram_users w).
        float_sub now (last_seen e) = now - last_seen e \<longrightarrow>
        (now - last_seen e > of_int (cleanup_idle_timeout (telegram_cfg i)) \<longrightarrow>
           map_of (telegram_users w') tg_id = None \<and>
           Quit (user e) (py ''Telegram idle timeout'') \<in> set (trace w')) \<and>
        (now - last_seen e \<le> of_int (cleanup_idle_timeout (telegram_cfg i)) \<longrightarrow>
           map_of (telegram_users w') tg_id = Some e))"
proof -
  let ?T = "real_of_int (cleanup_idle_timeout (telegram_cfg i))"
  from sweep_boundary [OF assms, of float_sub i now] obtain w' where
    sweep: "cleanup_sweep float_sub i now w = Inr w'"
    and keep: "telegram_users w' =
       filter (\<lambda>(tg_id, e). float_sub now (last_seen e) \<le> ?T) (telegram_users w)"
    and gone: "trace w' = trace w @
       map (\<lambda>(tg_id, e). Quit (user e) (py ''Telegram idle timeout''))
         (filter (\<lambda>(tg_id, e). float_sub now (last_seen e) > ?T) (telegram_users w))"
    and bm: "bridge_map w' = bridge_map w"
    and each: "\<forall>(tg_id, e) \<in> set (telegram_users w).
        (float_sub now (last_seen e) > ?T \<longrightarrow>
           map_of (telegram_users w') tg_id = None \<and>
           Quit (user e) (py ''Telegram idle timeout'') \<in> set (trace w')) \<and>
        (float_sub now (last_seen e) \<le> ?T \<longrightarrow> map_of (telegram_users w') tg_id = Some e)"
    by (elim exE conjE)
  have exact: "\<forall>(tg_id, e) \<in> set (telegram_users w).
        float_sub now (last_seen e) = now - last_seen e \<longrightarrow>
        (now - last_seen e > ?T \<longrightarrow>
           map_of (telegram_users w') tg_id = None \<and>
           Quit (user e) (py ''Telegram idle timeout'') \<in> set (trace w')) \<and>
        (now - last_seen e \<le> ?T \<longrightarrow> map_of (telegram_users w') tg_id = Some e)"
  proof (clarify)
    fix k e
    assume m: "(k, e) \<in> set (telegram_users w)"
      and ex: "float_sub now (last_seen e) = now - last_seen e"
    from each m have "(float_sub now (last_seen e) > ?T \<longrightarrow>
           map_of (telegram_users w') k = None \<and>
           Quit (user e) (py ''Telegram idle timeout'') \<in> set (trace w')) \<and>
        (float_sub now (last_seen e) \<le> ?T \<longrightarrow> map_of (telegram_users w') k = Some e)"
      by blast
    then show "(now - last_seen e > ?T \<longrightarrow>
           map_of (telegram_users w') k = None \<and>
           Quit (user e) (py ''Telegram idle timeout'') \<in> set (trace w')) \<and>
        (now - last_seen e \<le> ?T \<longrightarrow> map_of (telegram_users w') k = Some e)"
      by (simp only: ex)
  qed
  from sweep keep gone bm each exact show ?thesis
    by (intro exI [of _ w'] conjI)
qed

theorem idle_eviction_boundary_witness:
  "distinct (map fst (telegram_users ex_world_idle)) \<and>
   cleanup_idle_timeout (telegram_cfg ex_irc) = 3600 \<and>
   ex_exact_sub 10000 6399 = 10000 - 6399 \<and>
   ex_exact_sub 10000 6401 = 10000 - 6401 \<and>
   ex_exact_sub 10000 6400 = 10000 - 6400 \<and>
   cleanup_sweep ex_exact_sub ex_irc 10000 ex_world_idle =
     Inr \<lparr>telegram_users = [(8, \<lparr>user = 4, last_seen = 6401\<rparr>), (9, \<lparr>user = 5, last_seen = 6400\<rparr>)],
          bridge_map = [], trace = [Quit 3 (py ''Telegram idle timeout'')]\<rparr>"
  using idle_eviction_boundary
    [where w = ex_world_idle and i = ex_irc and now = 10000 and float_sub = ex_exact_sub]
  by (auto simp: ex_world_idle_def ex_irc_def ex_cfg_def ex_exact_sub_def)

section \<open>Routing of inbound messages\<close>



lemma ex_relay_result:
  "on_telegram_message ex_irc 100 101 ex_update ex_world_bridged =
     (Inr (),
      ex_world_bridged
        \<lparr>telegram_users := [(7, \<lparr>user = 0, last_seen = 101\<rparr>)],
         trace :=
           [CreateUser (py ''alice_in_w'') (py ''telegram'') (py ''bridge.invalid'')
              (py ''Telegram @alice_in_wonderland''),
            Join 0 (py ''#a''), Join 0 (py ''#b''), Join 0 (py ''#b''), Join 0 (py ''#b''),
            LogInfo (py ''[telegram] created IRC user: alice_in_w''),
            SendPrivmsg (py ''#b'') (py ''hello'') 0]\<rparr>)"
  by (simp add: on_telegram_message_def get_or_create_irc_user_def Let_def emit_def
      ex_world_bridged_eq ex_update_def ex_alice_def ex_irc_def ex_cfg_def truthy_def
      or_empty_def str_int_def str_nat.simps py_def build_nick_from_telegram_def nick_base_def
      sanitize_eq irc_allowed_def slice_to_def build_realname_def)


section \<open>Fan-out\<close>

lemma on_irc_privmsg_sends:
  "ident source \<noteq> identity_ident (telegram_cfg i) \<Longrightarrow>
   on_irc_privmsg i source target txt w =
     w\<lparr>trace := trace w @
         map (\<lambda>br. SendMessage (telegram_chat_id br) (py ''<'' @ nick source @ py ''> '' @ txt))
           (filter (\<lambda>br. target = irc_channel br) (bridges (telegram_cfg i)))\<rparr>"
  by (simp add: on_irc_privmsg_def Let_def fold_emit_cond)

text \<open>
  Claim C3, as stated, fails for a configuration that repeats a remote chat id. With the
  bridges \<open>(1, #a)\<close>, \<open>(1, #b)\<close>, \<open>(1, #b)\<close>, \<open>(2, #b)\<close>, a message from remote chat 1, which is
  bridged to \<open>#a\<close>, is posted to \<open>#b\<close> only, and a local message in \<open>#b\<close> is sent twice to
  remote chat 1 and once to remote chat 2.
\<close>

theorem fan_out_counterexample:
  "bridges ex_cfg ! 0 = \<lparr>telegram_chat_id = 1, irc_channel = py ''#a''\<rparr> \<and>
   chat_id \<lparr>msg_text = Some (py ''hello world''), chat_id = 1, from_user = Some ex_alice\<rparr> = 1 \<and>
   message ex_update =
     Some \<lparr>msg_text = Some (py ''hello world''), chat_id = 1, from_user = Some ex_alice\<rparr> \<and>
   privmsg_channels (trace (snd (on_telegram_message ex_irc 100 101 ex_update
     (build_bridge_map ex_cfg ex_world0)))) = [py ''#b''] \<and>
   trace (on_irc_privmsg ex_irc ex_local_source (py ''#b'') (py ''hi'') ex_world0) =
     [SendMessage 1 (py ''<bob> hi''), SendMessage 1 (py ''<bob> hi''),
      SendMessage 2 (py ''<bob> hi'')]"
  using ex_relay_result
  by (simp add: ex_world_bridged_def [symmetric] ex_world_bridged_eq)
     (simp add: ex_cfg_def ex_update_def on_irc_privmsg_def ex_irc_def ex_local_source_def
        ex_world0_def emit_def py_def)

text \<open>
  Claim C3, amended. A remote text message whose chat id \<open>bridge_map\<close> resolves to a bridge
  with channel \<open>C\<close>, from a participant whose identity exists or whose registration does not
  fail, produces exactly one post, to \<open>C\<close>, as the last call of the handler. A local message from a non-relay ident in
  channel \<open>C\<close> produces one outbound send for each configured bridge entry whose channel is
  \<open>C\<close>, in configuration order, to that entry's remote chat, with the text \<open><nick> text\<close>.
\<close>

theorem fan_out_per_bridge_entry:
  "(message upd = Some m \<and> truthy (msg_text m) \<and>
    map_of (bridge_map w) (str_int (chat_id m)) = Some b \<and> from_user m = Some u \<and>
    (map_of (telegram_users w) (user_id u) \<noteq> None \<or>
     (\<forall>err. create_user i (trace w) (build_nick_from_telegram u (telegram_cfg i))
        (identity_ident (telegram_cfg i)) (identity_host (telegram_cfg i)) (build_realname u)
          \<noteq> Inl err)) \<longrightarrow>
      fst (on_telegram_message i t_create t_seen upd w) = Inr () \<and>
      (\<exists>evs h. trace (snd (on_telegram_message i t_create t_seen upd w)) =
          trace w @ evs @
            [SendPrivmsg (irc_channel b)
               (slice_to (limits_message_max (telegram_cfg i)) (or_empty (msg_text m))) h] \<and>
          privmsg_channels evs = [])) \<and>
   (ident source \<noteq> identity_ident (telegram_cfg i) \<longrightarrow>
      on_irc_privmsg i source target txt w =
        w\<lparr>trace := trace w @
            map (\<lambda>br. SendMessage (telegram_chat_id br) (py ''<'' @ nick source @ py ''> '' @ txt))
              (filter (\<lambda>br. target = irc_channel br) (bridges (telegram_cfg i)))\<rparr>)"
proof (intro conjI impI)
  assume a: "message upd = Some m \<and> truthy (msg_text m) \<and>
    map_of (bridge_map w) (str_int (chat_id m)) = Some b \<and> from_user m = Some u \<and>
    (map_of (telegram_users w) (user_id u) \<noteq> None \<or>
     (\<forall>err. create_user i (trace w) (build_nick_from_telegram u (telegram_cfg i))
        (identity_ident (telegram_cfg i)) (identity_host (telegram_cfg i)) (build_realname u)
          \<noteq> Inl err))"
  then have m: "message upd = Some m" "truthy (msg_text m)"
      "map_of (bridge_map w) (str_int (chat_id m)) = Some b" "from_user m = Some u"
    by simp_all
  let ?R = "on_telegram_message i t_create t_seen upd w"
  let ?post = "\<lambda>h. SendPrivmsg (irc_channel b)
               (slice_to (limits_message_max (telegram_cfg i)) (or_empty (msg_text m))) h"
  have "fst ?R = Inr () \<and>
      (\<exists>evs h. trace (snd ?R) = trace w @ evs @ [?post h] \<and> privmsg_channels evs = [])"
  proof (cases "map_of (telegram_users w) (user_id u)")
    case (Some e)
    have "trace (snd ?R) = trace w @ [] @ [?post (user e)]"
      by (simp add: on_telegram_message_existing [OF m Some])
    moreover have "fst ?R = Inr ()"
      by (simp add: on_telegram_message_existing [OF m Some])
    ultimately show ?thesis
      by (metis privmsg_channels.simps(1))
  next
    case None
    from a None have "\<forall>err. create_user i (trace w) (build_nick_from_telegram u (telegram_cfg i))
        (identity_ident (telegram_cfg i)) (identity_host (telegram_cfg i)) (build_realname u)
          \<noteq> Inl err"
      by simp
    then obtain h where h: "create_user i (trace w) (build_nick_from_telegram u (telegram_cfg i))
       (identity_ident (telegram_cfg i)) (identity_host (telegram_cfg i)) (build_realname u) = Inr h"
      by (metis sum.exhaust)
    let ?evs = "CreateUser (build_nick_from_telegram u (telegram_cfg i))
            (identity_ident (telegram_cfg i)) (identity_host (telegram_cfg i)) (build_realname u) #
          map (\<lambda>b. Join h (irc_channel b)) (bridges (telegram_cfg i)) @
          [LogInfo (py ''[telegram] created IRC user: '' @ build_nick_from_telegram u (telegram_cfg i))]"
    have "trace (snd ?R) = trace w @ ?evs @ [?post h]"
      by (simp add: on_telegram_message_new [OF m None h])
    moreover have "privmsg_channels ?evs = []" by simp
    moreover have "fst ?R = Inr ()"
      by (simp add: on_telegram_message_new [OF m None h])
    ultimately show ?thesis by blast
  qed
  then show "fst ?R = Inr ()"
    and "\<exists>evs h. trace (snd ?R) = trace w @ evs @ [?post h] \<and> privmsg_channels evs = []"
    by simp_all
next
  assume "ident source \<noteq> identity_ident (telegram_cfg i)"
  then show "on_irc_privmsg i source target txt w =
        w\<lparr>trace := trace w @
            map (\<lambda>br. SendMessage (telegram_chat_id br) (py ''<'' @ nick source @ py ''> '' @ txt))
              (filter (\<lambda>br. target = irc_channel br) (bridges (telegram_cfg i)))\<rparr>"
    by (rule on_irc_privmsg_sends)
qed

lemma ex_relay_existing_result:
  "on_telegram_message ex_irc_failing 150 200 ex_update ex_world_seen =
     (Inr (),
      ex_world_seen
        \<lparr>telegram_users := [(7, \<lparr>user = 3, last_seen = 200\<rparr>)],
         trace := [SendPrivmsg (py ''#b'') (py ''hello'') 3]\<rparr>)"
  by (simp add: on_telegram_message_def get_or_create_irc_user_def Let_def emit_def
      ex_world_seen_def ex_world_bridged_eq ex_update_def ex_alice_def ex_irc_failing_def
      ex_cfg_def truthy_def or_empty_def str_int_def str_nat.simps py_def slice_to_def)

theorem fan_out_per_bridge_entry_witness:
  "message ex_update =
     Some \<lparr>msg_text = Some (py ''hello world''), chat_id = 1, from_user = Some ex_alice\<rparr> \<and>
   truthy (Some (py ''hello world'')) \<and>
   map_of (bridge_map ex_world_bridged) (str_int 1) =
     Some \<lparr>telegram_chat_id = 1, irc_channel = py ''#b''\<rparr> \<and>
   map_of (telegram_users ex_world_bridged) (user_id ex_alice) = None \<and>
   fst (on_telegram_message ex_irc 100 101 ex_update ex_world_bridged) = Inr () \<and>
   privmsg_channels (trace (snd (on_telegram_message ex_irc 100 101 ex_update ex_world_bridged))) =
     [py ''#b''] \<and>
   map_of (telegram_users ex_world_seen) (user_id ex_alice) = Some \<lparr>user = 3, last_seen = 100\<rparr> \<and>
   fst (on_telegram_message ex_irc_failing 150 200 ex_update ex_world_seen) = Inr () \<and>
   trace (snd (on_telegram_message ex_irc_failing 150 200 ex_update ex_world_seen)) =
     [SendPrivmsg (py ''#b'') (py ''hello'') 3] \<and>
   ident ex_local_source \<noteq> identity_ident (telegram_cfg ex_irc) \<and>
   trace (on_irc_privmsg ex_irc ex_local_source (py ''#b'') (py ''hi'') ex_world0) =
     [SendMessage 1 (py ''<bob> hi''), SendMessage 1 (py ''<bob> hi''),
      SendMessage 2 (py ''<bob> hi'')]"
  using fan_out_per_bridge_entry
      [of ex_update
        "\<lparr>msg_text = Some (py ''hello world''), chat_id = 1, from_user = Some ex_alice\<rparr>"
        ex_world_bridged "\<lparr>telegram_chat_id = 1, irc_channel = py ''#b''\<rparr>" ex_alice ex_irc
        100 101 ex_local_source "py ''#b''" "py ''hi''"]
    fan_out_per_bridge_entry
      [of ex_update
        "\<lparr>msg_text = Some (py ''hello world''), chat_id = 1, from_user = Some ex_alice\<rparr>"
        ex_world_seen "\<lparr>telegram_chat_id = 1, irc_channel = py ''#b''\<rparr>" ex_alice
        ex_irc_failing 150 200 ex_local_source "py ''#b''" "py ''hi''"]
    ex_relay_result ex_relay_existing_result
  by (simp add: ex_world_bridged_eq)
     (simp add: ex_cfg_def ex_update_def on_irc_privmsg_def ex_irc_def ex_local_source_def
        ex_world0_def ex_world_seen_def ex_world_bridged_eq ex_alice_def emit_def truthy_def
        py_def str_int_def str_nat.simps)

section \<open>Identity uniqueness\<close>

lemma creations_append [simp]: "creations (xs @ ys) = creations xs + creations ys"
  by (induction xs rule: creations.induct) simp_all

lemma creations_joins [simp]: "creations (map (\<lambda>b. Join h (f b)) bs) = 0"
  by (induction bs) simp_all

lemma get_or_create_all_Cons:
  "get_or_create_all i ((now, u) # cs) w =
     (fst (get_or_create_irc_user i now u w) #
        fst (get_or_create_all i cs (snd (get_or_create_irc_user i now u w))),
      snd (get_or_create_all i cs (snd (get_or_create_irc_user i now u w))))"
  by (simp add: case_prod_unfold)

lemma step_result:
  assumes ok: "\<forall>tr n a h r err. create_user i tr n a h r \<noteq> Inl err"
  shows "\<exists>e. map_of (telegram_users (snd (get_or_create_irc_user i now u w))) (user_id u) = Some e \<and>
           fst (get_or_create_irc_user i now u w) = Inr (user e)"
proof (cases "map_of (telegram_users w) (user_id u)")
  case (Some e)
  then show ?thesis by (simp add: get_or_create_existing [OF Some])
next
  case None
  from ok obtain h where h: "create_user i (trace w) (build_nick_from_telegram u (telegram_cfg i))
     (identity_ident (telegram_cfg i)) (identity_host (telegram_cfg i)) (build_realname u) = Inr h"
    by (metis sum.exhaust)
  show ?thesis
    by (simp add: get_or_create_new [OF None h] AList.update_conv')
qed

lemma step_kept:
  assumes "map_of (telegram_users w) k = Some e"
  shows "map_of (telegram_users (snd (get_or_create_irc_user i now u w))) k = Some e"
proof (cases "map_of (telegram_users w) (user_id u)")
  case (Some e')
  with assms show ?thesis by (simp add: get_or_create_existing [OF Some])
next
  case None
  with assms have ne: "k \<noteq> user_id u" by auto
  show ?thesis
  proof (cases "create_user i (trace w) (build_nick_from_telegram u (telegram_cfg i))
     (identity_ident (telegram_cfg i)) (identity_host (telegram_cfg i)) (build_realname u)")
    case (Inl err)
    with assms show ?thesis by (simp add: get_or_create_failing [OF None Inl])
  next
    case (Inr h)
    with assms ne show ?thesis by (simp add: get_or_create_new [OF None Inr] AList.update_conv')
  qed
qed

lemma step_keys:
  assumes ok: "\<forall>tr n a h r err. create_user i tr n a h r \<noteq> Inl err"
  shows "map fst (telegram_users (snd (get_or_create_irc_user i now u w))) =
       (if user_id u \<in> fst ` set (telegram_users w) then map fst (telegram_users w)
        else map fst (telegram_users w) @ [user_id u])"
proof (cases "map_of (telegram_users w) (user_id u)")
  case (Some e)
  then have "user_id u \<in> fst ` set (telegram_users w)"
    by (metis map_of_eq_None_iff option.distinct(1))
  then show ?thesis by (simp add: get_or_create_existing [OF Some])
next
  case None
  then have notin: "user_id u \<notin> fst ` set (telegram_users w)"
    by (simp add: map_of_eq_None_iff)
  from ok obtain h where h: "create_user i (trace w) (build_nick_from_telegram u (telegram_cfg i))
     (identity_ident (telegram_cfg i)) (identity_host (telegram_cfg i)) (build_realname u) = Inr h"
    by (metis sum.exhaust)
  show ?thesis
    using notin by (simp add: get_or_create_new [OF None h] AList.update_keys)
qed

lemma step_creations:
  assumes ok: "\<forall>tr n a h r err. create_user i tr n a h r \<noteq> Inl err"
  shows "creations (trace (snd (get_or_create_irc_user i now u w))) =
       creations (trace w) + (if user_id u \<in> fst ` set (telegram_users w) then 0 else 1)"
proof (cases "map_of (telegram_users w) (user_id u)")
  case (Some e)
  then have "user_id u \<in> fst ` set (telegram_users w)"
    by (metis map_of_eq_None_iff option.distinct(1))
  then show ?thesis by (simp add: get_or_create_existing [OF Some])
next
  case None
  then have notin: "user_id u \<notin> fst ` set (telegram_users w)"
    by (simp add: map_of_eq_None_iff)
  from ok obtain h where h: "create_user i (trace w) (build_nick_from_telegram u (telegram_cfg i))
     (identity_ident (telegram_cfg i)) (identity_host (telegram_cfg i)) (build_realname u) = Inr h"
    by (metis sum.exhaust)
  show ?thesis
    using notin by (simp add: get_or_create_new [OF None h])
qed

lemma step_keyset:
  assumes ok: "\<forall>tr n a h r err. create_user i tr n a h r \<noteq> Inl err"
  shows "fst ` set (telegram_users (snd (get_or_create_irc_user i now u w))) =
     insert (user_id u) (fst ` set (telegram_users w))"
proof -
  have "fst ` set (telegram_users (snd (get_or_create_irc_user i now u w))) =
      set (map fst (telegram_users (snd (get_or_create_irc_user i now u w))))"
    by simp
  also have "\<dots> = insert (user_id u) (fst ` set (telegram_users w))"
    unfolding step_keys [OF ok] by auto
  finally show ?thesis .
qed

lemma card_new_ids:
  assumes "finite I"
  shows "card (insert x I - K) = (if x \<in> K then 0 else 1) + card (I - insert x K)"
proof (cases "x \<in> K")
  case True
  then have "insert x I - K = I - insert x K" by blast
  then show ?thesis using True by (simp only: if_True add_0)
next
  case False
  have eq: "insert x I - K = insert x (I - insert x K)"
    using False by blast
  have "card (insert x (I - insert x K)) = Suc (card (I - insert x K))"
  proof (rule card_insert_disjoint)
    show "finite (I - insert x K)" using assms by (rule finite_Diff)
    show "x \<notin> I - insert x K" by blast
  qed
  then show ?thesis using False by (simp only: eq if_False plus_1_eq_Suc)
qed

lemma run_length: "length (fst (get_or_create_all i calls w)) = length calls"
proof (induction calls arbitrary: w)
  case Nil
  show ?case by simp
next
  case (Cons c cs)
  obtain now u where c: "c = (now, u)" by (cases c)
  show ?case unfolding c get_or_create_all_Cons by (simp add: Cons.IH)
qed

lemma run_kept:
  "map_of (telegram_users w) k = Some e \<Longrightarrow>
   map_of (telegram_users (snd (get_or_create_all i calls w))) k = Some e"
proof (induction calls arbitrary: w)
  case Nil
  then show ?case by simp
next
  case (Cons c cs)
  obtain now u where c: "c = (now, u)" by (cases c)
  from Cons.prems have "map_of (telegram_users (snd (get_or_create_irc_user i now u w))) k = Some e"
    by (rule step_kept)
  then have "map_of (telegram_users (snd (get_or_create_all i cs
      (snd (get_or_create_irc_user i now u w))))) k = Some e"
    by (rule Cons.IH)
  then show ?case unfolding c get_or_create_all_Cons by simp
qed

lemma run_keyset:
  assumes ok: "\<forall>tr n a h r err. create_user i tr n a h r \<noteq> Inl err"
  shows "fst ` set (telegram_users (snd (get_or_create_all i calls w))) =
     fst ` set (telegram_users w) \<union> user_id ` snd ` set calls"
proof (induction calls arbitrary: w)
  case Nil
  show ?case by simp
next
  case (Cons c cs)
  obtain now u where c: "c = (now, u)" by (cases c)
  show ?case
    unfolding c get_or_create_all_Cons
    by (simp add: Cons.IH step_keyset [OF ok])
qed

lemma run_distinct:
  assumes ok: "\<forall>tr n a h r err. create_user i tr n a h r \<noteq> Inl err"
  shows "distinct (map fst (telegram_users w)) \<Longrightarrow>
     distinct (map fst (telegram_users (snd (get_or_create_all i calls w))))"
proof (induction calls arbitrary: w)
  case Nil
  then show ?case by simp
next
  case (Cons c cs)
  obtain now u where c: "c = (now, u)" by (cases c)
  from Cons.prems have "distinct (map fst (telegram_users (snd (get_or_create_irc_user i now u w))))"
    unfolding step_keys [OF ok] by auto
  then have "distinct (map fst (telegram_users (snd (get_or_create_all i cs
      (snd (get_or_create_irc_user i now u w))))))"
    by (rule Cons.IH)
  then show ?case unfolding c get_or_create_all_Cons by simp
qed

lemma run_creations:
  assumes ok: "\<forall>tr n a h r err. create_user i tr n a h r \<noteq> Inl err"
  shows "creations (trace (snd (get_or_create_all i calls w))) =
      creations (trace w) + card (user_id ` snd ` set calls - fst ` set (telegram_users w))"
proof (induction calls arbitrary: w)
  case Nil
  show ?case by simp
next
  case (Cons c cs)
  obtain now u where c: "c = (now, u)" by (cases c)
  let ?w1 = "snd (get_or_create_irc_user i now u w)"
  have "creations (trace (snd (get_or_create_all i (c # cs) w))) =
      creations (trace (snd (get_or_create_all i cs ?w1)))"
    unfolding c get_or_create_all_Cons by simp
  also have "\<dots> = creations (trace ?w1) +
      card (user_id ` snd ` set cs - fst ` set (telegram_users ?w1))"
    by (rule Cons.IH)
  also have "\<dots> = creations (trace w) +
      ((if user_id u \<in> fst ` set (telegram_users w) then 0 else 1) +
       card (user_id ` snd ` set cs - insert (user_id u) (fst ` set (telegram_users w))))"
    by (simp only: step_creations [OF ok] step_keyset [OF ok] add.assoc)
  also have "(if user_id u \<in> fst ` set (telegram_users w) then 0 else 1) +
       card (user_id ` snd ` set cs - insert (user_id u) (fst ` set (telegram_users w))) =
     card (insert (user_id u) (user_id ` snd ` set cs) - fst ` set (telegram_users w))"
    by (rule card_new_ids [symmetric]) simp
  also have "insert (user_id u) (user_id ` snd ` set cs) = user_id ` snd ` set (c # cs)"
    unfolding c by simp
  finally show ?case .
qed

lemma run_results:
  assumes ok: "\<forall>tr n a h r err. create_user i tr n a h r \<noteq> Inl err"
  shows "j < length calls \<Longrightarrow>
     \<exists>e. map_of (telegram_users (snd (get_or_create_all i calls w))) (user_id (snd (calls ! j))) = Some e \<and>
         fst (get_or_create_all i calls w) ! j = Inr (user e)"
proof (induction calls arbitrary: w j)
  case Nil
  then show ?case by simp
next
  case (Cons c cs)
  obtain now u where c: "c = (now, u)" by (cases c)
  let ?w1 = "snd (get_or_create_irc_user i now u w)"
  show ?case
  proof (cases j)
    case 0
    from step_result [OF ok, of now u w] obtain e where
      e: "map_of (telegram_users ?w1) (user_id u) = Some e"
         "fst (get_or_create_irc_user i now u w) = Inr (user e)"
      by (elim exE conjE)
    from e(1) have "map_of (telegram_users (snd (get_or_create_all i cs ?w1))) (user_id u) = Some e"
      by (rule run_kept)
    with e(2) show ?thesis unfolding 0 c get_or_create_all_Cons by simp
  next
    case (Suc j')
    with Cons.prems have "j' < length cs" by simp
    from Cons.IH [OF this, of ?w1] show ?thesis
      unfolding Suc c get_or_create_all_Cons by simp
  qed
qed

lemma ex_world_created_eq:
  "ex_world_created =
     \<lparr>telegram_users = [(7, \<lparr>user = 0, last_seen = 0\<rparr>)], bridge_map = [],
      trace =
        [CreateUser (py ''alice_in_w'') (py ''telegram'') (py ''bridge.invalid'')
           (py ''Telegram @alice_in_wonderland''),
         Join 0 (py ''#a''), Join 0 (py ''#b''), Join 0 (py ''#b''), Join 0 (py ''#b''),
         LogInfo (py ''[telegram] created IRC user: alice_in_w'')]\<rparr>"
  by (simp add: ex_world_created_def get_or_create_irc_user_def Let_def emit_def ex_world0_def
      ex_alice_def ex_irc_def ex_cfg_def truthy_def or_empty_def py_def
      build_nick_from_telegram_def nick_base_def sanitize_eq irc_allowed_def slice_to_def
      build_realname_def)

text \<open>
  Claim C1, as stated, fails in two ways. When the first \<open>irc.create_user\<close> raises, nothing is
  stored, so the second call for the same participant calls \<open>create_user\<close> again: two creations
  are observed and the first call returns no handle. And when an idle sweep evicts the identity
  between two calls, the second call registers a new identity: the handles are 0 and then 7.
\<close>

theorem identity_uniqueness_counterexample:
  "fst (get_or_create_all ex_irc_flaky [(1, ex_alice), (2, ex_alice)] ex_world0) =
     [Inl IrcError, Inr 1] \<and>
   creations (trace (snd (get_or_create_all ex_irc_flaky [(1, ex_alice), (2, ex_alice)]
     ex_world0))) = 2 \<and>
   get_or_create_irc_user ex_irc 0 ex_alice ex_world0 = (Inr 0, ex_world_created) \<and>
   cleanup_sweep ex_exact_sub ex_irc 10000 ex_world_created = Inr ex_world_swept \<and>
   fst (get_or_create_irc_user ex_irc 10001 ex_alice ex_world_swept) = Inr 7 \<and>
   creations (trace (snd (get_or_create_irc_user ex_irc 10001 ex_alice ex_world_swept))) = 2"
proof -
  have flaky: "fst (get_or_create_all ex_irc_flaky [(1, ex_alice), (2, ex_alice)] ex_world0) =
       [Inl IrcError, Inr 1] \<and>
     creations (trace (snd (get_or_create_all ex_irc_flaky [(1, ex_alice), (2, ex_alice)]
       ex_world0))) = 2"
    by (simp add: get_or_create_irc_user_def Let_def emit_def ex_world0_def ex_irc_flaky_def
        ex_cfg_def ex_alice_def)
  have first: "get_or_create_irc_user ex_irc 0 ex_alice ex_world0 = (Inr 0, ex_world_created)"
    by (simp add: ex_world_created_def get_or_create_irc_user_def Let_def emit_def ex_world0_def
        ex_alice_def ex_irc_def)
  have sweep: "cleanup_sweep ex_exact_sub ex_irc 10000 ex_world_created = Inr ex_world_swept"
    by (simp add: ex_world_swept_def ex_world_created_eq cleanup_sweep_def ex_exact_sub_def
        ex_irc_def ex_cfg_def emit_def)
  have again: "fst (get_or_create_irc_user ex_irc 10001 ex_alice ex_world_swept) = Inr 7 \<and>
     creations (trace (snd (get_or_create_irc_user ex_irc 10001 ex_alice ex_world_swept))) = 2"
    by (simp add: ex_world_swept_def ex_world_created_eq get_or_create_irc_user_def Let_def
        emit_def ex_alice_def ex_irc_def ex_cfg_def)
  from flaky first sweep again show ?thesis by (simp only: simp_thms)
qed

text \<open>
  Claim C1, amended. Let \<open>get_or_create_irc_user\<close> be called for any sequence of profiles, with
  no idle eviction in between, from a table with distinct keys, on a local network whose
  \<open>create_user\<close> does not raise. Then every call returns a handle, and two calls whose profiles
  have the same participant id return the same handle; the number of \<open>irc.create_user\<close> calls
  made is the number of distinct participant ids in the sequence that had no entry before, so
  exactly one for a sequence of calls that all carry one new id; and the table's keys stay
  distinct (one entry per participant id), being the old keys and the ids of the sequence.
\<close>

theorem identity_uniqueness:
  assumes ok: "\<forall>tr n a h r err. create_user i tr n a h r \<noteq> Inl err"
    and dist: "distinct (map fst (telegram_users w))"
  shows "length (fst (get_or_create_all i calls w)) = length calls \<and>
    (\<forall>j<length calls. \<forall>k<length calls.
        user_id (snd (calls ! j)) = user_id (snd (calls ! k)) \<longrightarrow>
        (\<exists>h. fst (get_or_create_all i calls w) ! j = Inr h \<and>
             fst (get_or_create_all i calls w) ! k = Inr h)) \<and>
    creations (trace (snd (get_or_create_all i calls w))) =
      creations (trace w) + card (user_id ` snd ` set calls - fst ` set (telegram_users w)) \<and>
    (calls \<noteq> [] \<and> (\<forall>c\<in>set calls. user_id (snd c) = p) \<and>
     p \<notin> fst ` set (telegram_users w) \<longrightarrow>
       creations (trace (snd (get_or_create_all i calls w))) = creations (trace w) + 1) \<and>
    distinct (map fst (telegram_users (snd (get_or_create_all i calls w)))) \<and>
    fst ` set (telegram_users (snd (get_or_create_all i calls w))) =
      fst ` set (telegram_users w) \<union> user_id ` snd ` set calls"
proof (intro conjI)
  show "length (fst (get_or_create_all i calls w)) = length calls"
    by (rule run_length)
  show "\<forall>j<length calls. \<forall>k<length calls.
        user_id (snd (calls ! j)) = user_id (snd (calls ! k)) \<longrightarrow>
        (\<exists>h. fst (get_or_create_all i calls w) ! j = Inr h \<and>
             fst (get_or_create_all i calls w) ! k = Inr h)"
  proof (intro allI impI)
    fix j k
    assume j: "j < length calls" and k: "k < length calls"
      and same: "user_id (snd (calls ! j)) = user_id (snd (calls ! k))"
    from run_results [OF ok j, of w] obtain e where
      e: "map_of (telegram_users (snd (get_or_create_all i calls w)))
            (user_id (snd (calls ! j))) = Some e"
         "fst (get_or_create_all i calls w) ! j = Inr (user e)"
      by (elim exE conjE)
    from run_results [OF ok k, of w] obtain e' where
      e': "map_of (telegram_users (snd (get_or_create_all i calls w)))
            (user_id (snd (calls ! k))) = Some e'"
         "fst (get_or_create_all i calls w) ! k = Inr (user e')"
      by (elim exE conjE)
    from e(1) e'(1) same have "e' = e" by simp
    with e(2) e'(2) show "\<exists>h. fst (get_or_create_all i calls w) ! j = Inr h \<and>
             fst (get_or_create_all i calls w) ! k = Inr h"
      by simp
  qed
  show cre: "creations (trace (snd (get_or_create_all i calls w))) =
      creations (trace w) + card (user_id ` snd ` set calls - fst ` set (telegram_users w))"
    by (rule run_creations [OF ok])
  show "calls \<noteq> [] \<and> (\<forall>c\<in>set calls. user_id (snd c) = p) \<and>
     p \<notin> fst ` set (telegram_users w) \<longrightarrow>
       creations (trace (snd (get_or_create_all i calls w))) = creations (trace w) + 1"
  proof
    assume a: "calls \<noteq> [] \<and> (\<forall>c\<in>set calls. user_id (snd c) = p) \<and>
      p \<notin> fst ` set (telegram_users w)"
    then obtain c where c: "c \<in> set calls" by (cases calls) auto
    with a have "user_id (snd c) = p" by blast
    with c have "p \<in> user_id ` snd ` set calls" by force
    moreover from a have "user_id ` snd ` set calls \<subseteq> {p}" by auto
    ultimately have "user_id ` snd ` set calls = {p}" by blast
    with a have "user_id ` snd ` set calls - fst ` set (telegram_users w) = {p}" by blast
    then have "card (user_id ` snd ` set calls - fst ` set (telegram_users w)) = 1"
      by (simp only: card.empty card_insert_disjoint finite.emptyI empty_iff not_False_eq_True
          One_nat_def)
    with cre show "creations (trace (snd (get_or_create_all i calls w))) = creations (trace w) + 1"
      by (simp only:)
  qed
  show "distinct (map fst (telegram_users (snd (get_or_create_all i calls w))))"
    using dist by (rule run_distinct [OF ok])
  show "fst ` set (telegram_users (snd (get_or_create_all i calls w))) =
      fst ` set (telegram_users w) \<union> user_id ` snd ` set calls"
    by (rule run_keyset [OF ok])
qed

lemma ex_run_result:
  "fst (get_or_create_all ex_irc [(1, ex_alice), (2, ex_anon), (3, ex_alice_renamed)] ex_world0) =
     [Inr 0, Inr 6, Inr 0] \<and>
   telegram_users (snd (get_or_create_all ex_irc
       [(1, ex_alice), (2, ex_anon), (3, ex_alice_renamed)] ex_world0)) =
     [(7, \<lparr>user = 0, last_seen = 1\<rparr>), (42, \<lparr>user = 6, last_seen = 2\<rparr>)] \<and>
   creations (trace (snd (get_or_create_all ex_irc
       [(1, ex_alice), (2, ex_anon), (3, ex_alice_renamed)] ex_world0))) = 2"
  by (simp add: get_or_create_irc_user_def Let_def emit_def ex_world0_def ex_irc_def ex_cfg_def
      ex_alice_def ex_anon_def ex_alice_renamed_def)

theorem identity_uniqueness_witness:
  "(\<forall>tr n a h r err. create_user ex_irc tr n a h r \<noteq> Inl err) \<and>
   distinct (map fst (telegram_users ex_world0)) \<and>
   user_id ex_alice = user_id ex_alice_renamed \<and>
   fst (get_or_create_all ex_irc [(1, ex_alice), (2, ex_anon), (3, ex_alice_renamed)] ex_world0) =
     [Inr 0, Inr 6, Inr 0] \<and>
   map fst (telegram_users (snd (get_or_create_all ex_irc
       [(1, ex_alice), (2, ex_anon), (3, ex_alice_renamed)] ex_world0))) = [7, 42] \<and>
   creations (trace (snd (get_or_create_all ex_irc
       [(1, ex_alice), (2, ex_anon), (3, ex_alice_renamed)] ex_world0))) = 2"
  using identity_uniqueness [of ex_irc ex_world0
      "[(1, ex_alice), (2, ex_anon), (3, ex_alice_renamed)]" 7]
    ex_run_result
  by (simp add: ex_irc_def ex_world0_def ex_alice_def ex_alice_renamed_def)

end
